theory Spec2Isabelle
  imports Main "HOL-Library.Char_ord" "HOL-Library.List_Lexorder"
begin

section \<open>The tags table and the database layer\<close>

text \<open>
  The package persists into one table,
  \<^verbatim>\<open>tags(id INTEGER PRIMARY KEY, universe NOT NULL, entity NOT NULL, key NOT NULL, value TEXT)\<close>.
  A row of the model carries the four columns the statements of \<^verbatim>\<open>tags.go\<close> name; the
  column \<^verbatim>\<open>id\<close> is never read or written by them and is represented by the position of
  the row in the list: the table is the list of its rows in rowid order. The column
  \<^verbatim>\<open>value\<close> is nullable, hence an option.
\<close>

record tagrow =
  col_universe :: string
  col_entity :: string
  col_key :: string
  col_value :: "string option"

type_synonym store = "tagrow list"

text \<open>
  Go's \<^verbatim>\<open>error\<close> values: the ones the database layer hands out, the one \<^verbatim>\<open>rs.Scan\<close> raises
  when it converts NULL into a Go string, and the ones of \<^verbatim>\<open>encoding/json\<close>.
\<close>

datatype error = StoreError string | ScanError | JsonError string

text \<open>
  The calls into \<^verbatim>\<open>database/sql\<close> can fail for reasons outside the program (closed or
  locked database, full disk). A value of \<open>faults\<close> says what the database layer
  answers during one operation: the error of \<^verbatim>\<open>Begin\<close>, \<^verbatim>\<open>Prepare\<close>, \<^verbatim>\<open>Query\<close>, \<^verbatim>\<open>Exec\<close>
  and \<^verbatim>\<open>Commit\<close> if any, and after how many rows the iteration of a result set breaks
  (then \<^verbatim>\<open>rs.Next()\<close> returns false and the error waits in \<^verbatim>\<open>rs.Err()\<close>).
  The results of \<^verbatim>\<open>Close\<close> and of the deferred \<^verbatim>\<open>Rollback\<close> are never read by the
  source and have no field.
\<close>

record faults =
  begin_err :: "error option"
  prepare_err :: "error option"
  query_err :: "error option"
  exec_err :: "error option"
  commit_err :: "error option"
  rows_break :: "nat option"

definition no_faults :: faults where
  "no_faults = \<lparr>begin_err = None, prepare_err = None, query_err = None,
     exec_err = None, commit_err = None, rows_break = None\<rparr>"

definition delivered :: "faults \<Rightarrow> 'a list \<Rightarrow> 'a list" where
  "delivered f rs = (case rows_break f of None \<Rightarrow> rs | Some n \<Rightarrow> take n rs)"

subsection \<open>The four statements\<close>

definition matches :: "string \<Rightarrow> string \<Rightarrow> string \<Rightarrow> tagrow \<Rightarrow> bool" where
  "matches u e k r = (col_universe r = u \<and> col_entity r = e \<and> col_key r = k)"

definition in_bag :: "string \<Rightarrow> string \<Rightarrow> tagrow \<Rightarrow> bool" where
  "in_bag u e r = (col_universe r = u \<and> col_entity r = e)"

text \<open>
  \<^verbatim>\<open>INSERT INTO tags (universe, entity, key, value) VALUES(?, ?, ?, ?)
  ON CONFLICT(universe, entity, key) DO UPDATE SET value=excluded.value\<close>:
  a row with the triple gets the new value in place, otherwise a new row is added with
  a fresh rowid, at the end of the table.
\<close>

definition tagUpsert :: "string \<Rightarrow> string \<Rightarrow> string \<Rightarrow> string \<Rightarrow> store \<Rightarrow> store" where
  "tagUpsert u e k raw db =
     (if list_ex (matches u e k) db
      then map (\<lambda>r. if matches u e k r then r\<lparr>col_value := Some raw\<rparr> else r) db
      else db @ [\<lparr>col_universe = u, col_entity = e, col_key = k, col_value = Some raw\<rparr>])"

text \<open>\<^verbatim>\<open>SELECT value FROM tags WHERE universe = ? AND entity = ? AND key = ?\<close>\<close>

definition tagQuery :: "string \<Rightarrow> string \<Rightarrow> string \<Rightarrow> store \<Rightarrow> string option list" where
  "tagQuery u e k db = map col_value (filter (matches u e k) db)"

text \<open>\<^verbatim>\<open>DELETE FROM tags WHERE universe = ? AND entity = ? AND key = ?\<close>\<close>

definition tagDelete :: "string \<Rightarrow> string \<Rightarrow> string \<Rightarrow> store \<Rightarrow> store" where
  "tagDelete u e k db = filter (\<lambda>r. \<not> matches u e k r) db"

text \<open>
  \<^verbatim>\<open>SELECT key FROM tags WHERE universe = ? AND entity = ?\<close>. The statement has no
  \<^verbatim>\<open>ORDER BY\<close>, so SQL leaves the order of the rows to the engine and to the access
  path it picks. The access path is the parameter \<open>plan\<close>, which arranges the rows
  selected. On the schema the package documents, SQLite answers this statement from the
  unique index on universe, entity and key, which covers it: \<open>index_scan\<close> walks the
  index forward and yields the rows by ascending key, bytewise, which is what the engine
  does as configured by default; \<open>index_scan_reverse\<close> walks it backward, which is what
  the engine does under \<^verbatim>\<open>PRAGMA reverse_unordered_selects\<close>, its switch for the order
  of statements that have no \<^verbatim>\<open>ORDER BY\<close>.
\<close>

definition tagKeys :: "(tagrow list \<Rightarrow> tagrow list) \<Rightarrow> string \<Rightarrow> string \<Rightarrow> store \<Rightarrow> string list" where
  "tagKeys plan u e db = map col_key (plan (filter (in_bag u e) db))"

definition index_scan :: "tagrow list \<Rightarrow> tagrow list" where
  "index_scan rs = sort_key col_key rs"

definition index_scan_reverse :: "tagrow list \<Rightarrow> tagrow list" where
  "index_scan_reverse rs = rev (sort_key col_key rs)"

text \<open>\<^verbatim>\<open>rs.Scan(&raw)\<close> with \<^verbatim>\<open>raw\<close> a Go string: NULL does not convert.\<close>

definition Scan :: "string option \<Rightarrow> error + string" where
  "Scan c = (case c of None \<Rightarrow> Inl ScanError | Some s \<Rightarrow> Inr s)"

section \<open>Handles\<close>

text \<open>
  \<^verbatim>\<open>TagBag\<close> holds a universe and an entity, \<^verbatim>\<open>Tag\<close> the same two fields and a key.
  The field \<^verbatim>\<open>db\<close> that every handle carries points to the one shared database; the
  model passes the table to each operation and returns it from the ones that write.
\<close>

record TagBag =
  universe :: string
  entity :: string

record Tag = TagBag +
  key :: string

definition TagBag_Tag :: "TagBag \<Rightarrow> string \<Rightarrow> Tag" where
  "TagBag_Tag bag k = \<lparr>universe = universe bag, entity = entity bag, key = k\<rparr>"

definition Tags_TagBag :: "string \<Rightarrow> string \<Rightarrow> TagBag" where
  "Tags_TagBag u e = \<lparr>universe = u, entity = e\<rparr>"

definition Tags_Tag :: "string \<Rightarrow> string \<Rightarrow> string \<Rightarrow> Tag" where
  "Tags_Tag u e k = TagBag_Tag (Tags_TagBag u e) k"

section \<open>Operations of a tag\<close>

text \<open>
  \<^verbatim>\<open>json.Marshal\<close> and \<^verbatim>\<open>json.Unmarshal\<close> belong to Go's standard library. They are
  parameters of the operations: \<open>marshal\<close> returns the text or an error, \<open>unmarshal\<close>
  takes the text and what the output slot holds and returns the error if any together
  with what the slot holds afterwards.

  \<^verbatim>\<open>Get\<close> returns the flag, the error and the contents of the output slot.
\<close>

definition Tag_Get ::
  "(string \<Rightarrow> 'v \<Rightarrow> error option \<times> 'v) \<Rightarrow> faults \<Rightarrow> store \<Rightarrow> Tag \<Rightarrow> 'v \<Rightarrow> bool \<times> error option \<times> 'v" where
  "Tag_Get unmarshal f db tag out =
     (case prepare_err f of
        Some err \<Rightarrow> (False, Some err, out)
      | None \<Rightarrow>
          (case query_err f of
             Some err \<Rightarrow> (False, Some err, out)
           | None \<Rightarrow>
               (case delivered f (tagQuery (universe tag) (entity tag) (key tag) db) of
                  [] \<Rightarrow> (False, None, out)
                | c # _ \<Rightarrow>
                    (case Scan c of
                       Inl err \<Rightarrow> (False, Some err, out)
                     | Inr raw \<Rightarrow>
                         (case unmarshal raw out of
                            (Some err, out') \<Rightarrow> (False, Some err, out')
                          | (None, out') \<Rightarrow> (True, None, out'))))))"

text \<open>
  \<^verbatim>\<open>Set\<close> and \<^verbatim>\<open>Delete\<close> return the error and the table. The result of
  \<^verbatim>\<open>tx.Commit()\<close> is not read: when the commit fails nothing is persisted, the
  deferred rollback ends the transaction, and the function returns nil.
\<close>

definition Tag_Set ::
  "('v \<Rightarrow> error + string) \<Rightarrow> faults \<Rightarrow> store \<Rightarrow> Tag \<Rightarrow> 'v \<Rightarrow> error option \<times> store" where
  "Tag_Set marshal f db tag v =
     (case marshal v of
        Inl err \<Rightarrow> (Some err, db)
      | Inr rawJson \<Rightarrow>
          (case begin_err f of
             Some err \<Rightarrow> (Some err, db)
           | None \<Rightarrow>
               (case prepare_err f of
                  Some err \<Rightarrow> (Some err, db)
                | None \<Rightarrow>
                    (case exec_err f of
                       Some err \<Rightarrow> (Some err, db)
                     | None \<Rightarrow>
                         (case commit_err f of
                            Some _ \<Rightarrow> (None, db)
                          | None \<Rightarrow>
                              (None, tagUpsert (universe tag) (entity tag) (key tag) rawJson db))))))"

definition Tag_Delete :: "faults \<Rightarrow> store \<Rightarrow> Tag \<Rightarrow> error option \<times> store" where
  "Tag_Delete f db tag =
     (case begin_err f of
        Some err \<Rightarrow> (Some err, db)
      | None \<Rightarrow>
          (case prepare_err f of
             Some err \<Rightarrow> (Some err, db)
           | None \<Rightarrow>
               (case exec_err f of
                  Some err \<Rightarrow> (Some err, db)
                | None \<Rightarrow>
                    (case commit_err f of
                       Some _ \<Rightarrow> (None, db)
                     | None \<Rightarrow> (None, tagDelete (universe tag) (entity tag) (key tag) db)))))"

section \<open>Listing the tags of a bag\<close>

text \<open>
  The loop appends one name for each row \<^verbatim>\<open>rs.Next()\<close> delivers, in the order of
  delivery. \<^verbatim>\<open>rs.Scan(&value)\<close> converts a \<^verbatim>\<open>NOT NULL\<close> column into a string and its
  result is not read; \<^verbatim>\<open>rs.Err()\<close> is not read either, so a broken iteration ends the
  loop like the end of the rows does.
\<close>

fun Tags_loop :: "string list \<Rightarrow> string list \<Rightarrow> string list" where
  "Tags_loop result [] = result"
| "Tags_loop result (v # rs) = Tags_loop (result @ [v]) rs"

definition TagBag_Tags ::
  "(tagrow list \<Rightarrow> tagrow list) \<Rightarrow> faults \<Rightarrow> store \<Rightarrow> TagBag \<Rightarrow> error + string list" where
  "TagBag_Tags plan f db bag =
     (case prepare_err f of
        Some err \<Rightarrow> Inl err
      | None \<Rightarrow>
          (case query_err f of
             Some err \<Rightarrow> Inl err
           | None \<Rightarrow>
               Inr (Tags_loop [] (delivered f (tagKeys plan (universe bag) (entity bag) db)))))"

section \<open>Callers\<close>

text \<open>
  A caller that deletes the same tag \<open>n\<close> times in a row while the database layer
  answers every call: the errors of the calls in order, and the table left.
\<close>

fun Delete_repeat :: "nat \<Rightarrow> store \<Rightarrow> Tag \<Rightarrow> error option list \<times> store" where
  "Delete_repeat 0 db tag = ([], db)"
| "Delete_repeat (Suc n) db tag =
     (case Tag_Delete no_faults db tag of
        (err, db') \<Rightarrow>
          (case Delete_repeat n db' tag of (errs, db'') \<Rightarrow> (err # errs, db'')))"

text \<open>
  A caller that makes a sequence of \<^verbatim>\<open>Set\<close> calls, each on its own handle with its own
  value and its own answers of the database layer: the table left.
\<close>

fun Set_all :: "('v \<Rightarrow> error + string) \<Rightarrow> store \<Rightarrow> (faults \<times> Tag \<times> 'v) list \<Rightarrow> store" where
  "Set_all marshal db [] = db"
| "Set_all marshal db ((f, tag, v) # calls) =
     Set_all marshal (snd (Tag_Set marshal f db tag v)) calls"

section \<open>Properties of tables and handles\<close>

definition nonempty_triples :: "store \<Rightarrow> bool" where
  "nonempty_triples db =
     list_all (\<lambda>r. col_universe r \<noteq> [] \<and> col_entity r \<noteq> [] \<and> col_key r \<noteq> []) db"

definition nonempty_handle :: "Tag \<Rightarrow> bool" where
  "nonempty_handle tag = (universe tag \<noteq> [] \<and> entity tag \<noteq> [] \<and> key tag \<noteq> [])"

text \<open>The unique index on universe, entity and key: no two rows share a triple.\<close>

definition unique_triples :: "store \<Rightarrow> bool" where
  "unique_triples db = distinct (map (\<lambda>r. (col_universe r, col_entity r, col_key r)) db)"

section \<open>A codec on a small universe of Go values\<close>

text \<open>
  The operations are run on concrete tables with an instance of their two parameters:
  \<^verbatim>\<open>encoding/json\<close>, which the source imports and which is not part of it, on three Go
  values, \<^verbatim>\<open>nil\<close>, the booleans, and a channel.
\<close>

datatype gvalue = GNil | GBool bool | GChan

text \<open>
  Modelled from the spec: \<^verbatim>\<open>json.Marshal\<close> of the standard library. \<^verbatim>\<open>nil\<close> serializes
  to the literal \<^verbatim>\<open>null\<close>, a boolean to its literal, and a channel is not representable
  in JSON.
\<close>

definition json_Marshal :: "gvalue \<Rightarrow> error + string" where
  "json_Marshal v =
     (case v of
        GNil \<Rightarrow> Inr ''null''
      | GBool b \<Rightarrow> Inr (if b then ''true'' else ''false'')
      | GChan \<Rightarrow> Inl (JsonError ''json: unsupported type''))"

text \<open>
  Modelled from the spec: \<^verbatim>\<open>json.Unmarshal\<close> of the standard library into a slot of type
  \<^verbatim>\<open>any\<close>. The literal \<^verbatim>\<open>null\<close> sets the slot to \<^verbatim>\<open>nil\<close>, a boolean literal to the
  boolean; any other text is refused by this instance and leaves the slot as it was.
\<close>

definition json_Unmarshal :: "string \<Rightarrow> gvalue \<Rightarrow> error option \<times> gvalue" where
  "json_Unmarshal raw out =
     (if raw = ''null'' then (None, GNil)
      else if raw = ''true'' then (None, GBool True)
      else if raw = ''false'' then (None, GBool False)
      else (Some (JsonError ''json: cannot unmarshal''), out))"

section \<open>The statements on the table\<close>

lemma tagQuery_upsert_map:
  "map col_value (filter (matches u e k)
      (map (\<lambda>r. if matches u e k r then r\<lparr>col_value := Some raw\<rparr> else r) db))
   = replicate (length (filter (matches u e k) db)) (Some raw)"
  by (induction db) (simp_all add: matches_def)

lemma tagQuery_tagUpsert:
  "\<exists>n. tagQuery u e k (tagUpsert u e k raw db) = replicate (Suc n) (Some raw)"
proof (cases "list_ex (matches u e k) db")
  case True
  then have "filter (matches u e k) db \<noteq> []"
    by (simp add: list_ex_iff filter_empty_conv)
  then obtain n where "length (filter (matches u e k) db) = Suc n"
    by (cases "filter (matches u e k) db") simp_all
  with True show ?thesis
    by (simp add: tagQuery_def tagUpsert_def tagQuery_upsert_map)
next
  case False
  then have "filter (matches u e k) db = []"
    by (simp add: list_ex_iff filter_empty_conv)
  with False have "tagQuery u e k (tagUpsert u e k raw db) = replicate (Suc 0) (Some raw)"
    by (simp add: tagQuery_def tagUpsert_def matches_def)
  then show ?thesis by blast
qed

lemma tagQuery_tagDelete: "tagQuery u e k (tagDelete u e k db) = []"
  by (simp add: tagQuery_def tagDelete_def filter_empty_conv)

lemma tagDelete_absent: "tagQuery u e k db = [] \<Longrightarrow> tagDelete u e k db = db"
  by (simp add: tagQuery_def tagDelete_def filter_empty_conv filter_id_conv)

lemma delivered_Cons_in:
  assumes "delivered f xs = c # rest"
  shows "c \<in> set xs"
proof -
  have "set (delivered f xs) \<subseteq> set xs"
    by (auto simp: delivered_def split: option.splits dest: in_set_takeD)
  with assms show ?thesis by auto
qed

lemma set_tagQuery_tagUpsert: "set (tagQuery u e k (tagUpsert u e k raw db)) = {Some raw}"
proof -
  obtain n where "tagQuery u e k (tagUpsert u e k raw db) = replicate (Suc n) (Some raw)"
    using tagQuery_tagUpsert by blast
  then show ?thesis by (simp only: set_replicate_Suc)
qed

text \<open>A write to one triple is not seen by a query for another.\<close>

lemma tagQuery_tagUpsert_other:
  assumes "(u', e', k') \<noteq> (u, e, k)"
  shows "tagQuery u' e' k' (tagUpsert u e k raw db) = tagQuery u' e' k' db"
proof -
  have "map col_value (filter (matches u' e' k')
      (map (\<lambda>r. if matches u e k r then r\<lparr>col_value := Some raw\<rparr> else r) db))
     = map col_value (filter (matches u' e' k') db)"
    using assms by (induction db) (auto simp: matches_def)
  with assms show ?thesis
    by (auto simp: tagQuery_def tagUpsert_def matches_def)
qed

subsection \<open>The unique index is kept\<close>

lemma unique_tagUpsert:
  assumes "unique_triples db"
  shows "unique_triples (tagUpsert u e k raw db)"
proof (cases "list_ex (matches u e k) db")
  case True
  have "map (\<lambda>r. (col_universe r, col_entity r, col_key r))
      (map (\<lambda>r. if matches u e k r then r\<lparr>col_value := Some raw\<rparr> else r) db)
    = map (\<lambda>r. (col_universe r, col_entity r, col_key r)) db"
    by (induction db) simp_all
  with assms True show ?thesis
    by (simp add: unique_triples_def tagUpsert_def del: map_map)
next
  case False
  then have "(u, e, k) \<notin> set (map (\<lambda>r. (col_universe r, col_entity r, col_key r)) db)"
    by (auto simp: list_ex_iff matches_def)
  with assms False show ?thesis
    by (simp add: unique_triples_def tagUpsert_def)
qed

lemma unique_tagDelete: "unique_triples db \<Longrightarrow> unique_triples (tagDelete u e k db)"
  by (simp add: unique_triples_def tagDelete_def distinct_map_filter)

lemma unique_tagQuery_le1: "unique_triples db \<Longrightarrow> length (tagQuery u e k db) \<le> 1"
proof (induction db)
  case Nil
  then show ?case by (simp add: tagQuery_def)
next
  case (Cons r db)
  then have u: "unique_triples db"
    and n: "(col_universe r, col_entity r, col_key r) \<notin>
      set (map (\<lambda>r. (col_universe r, col_entity r, col_key r)) db)"
    by (simp_all add: unique_triples_def)
  show ?case
  proof (cases "matches u e k r")
    case True
    with n have "filter (matches u e k) db = []"
      by (auto simp: filter_empty_conv matches_def image_iff)
    with True show ?thesis by (simp add: tagQuery_def)
  next
    case False
    with Cons.IH [OF u] show ?thesis by (simp add: tagQuery_def)
  qed
qed

lemma unique_tagQuery_tagUpsert:
  assumes "unique_triples db"
  shows "tagQuery u e k (tagUpsert u e k raw db) = [Some raw]"
proof -
  obtain n where n: "tagQuery u e k (tagUpsert u e k raw db) = replicate (Suc n) (Some raw)"
    using tagQuery_tagUpsert by blast
  have "length (tagQuery u e k (tagUpsert u e k raw db)) \<le> 1"
    by (rule unique_tagQuery_le1 [OF unique_tagUpsert [OF assms]])
  with n have "n = 0" by simp
  with n show ?thesis by simp
qed

section \<open>Set, Get and Delete when the database layer answers every call\<close>

lemma handle_fields:
  "universe (Tags_Tag u e k) = u" "entity (Tags_Tag u e k) = e" "key (Tags_Tag u e k) = k"
  by (simp_all add: Tags_Tag_def TagBag_Tag_def Tags_TagBag_def)

lemma Set_no_faults:
  "marshal v = Inr raw \<Longrightarrow>
   Tag_Set marshal no_faults db tag v =
     (None, tagUpsert (universe tag) (entity tag) (key tag) raw db)"
  by (simp add: Tag_Set_def no_faults_def)

lemma Get_after_upsert:
  assumes "unmarshal raw out = (None, v)"
  shows "Tag_Get unmarshal no_faults
           (tagUpsert (universe tag) (entity tag) (key tag) raw db) tag out = (True, None, v)"
proof -
  obtain n where "tagQuery (universe tag) (entity tag) (key tag)
      (tagUpsert (universe tag) (entity tag) (key tag) raw db) = replicate (Suc n) (Some raw)"
    using tagQuery_tagUpsert by blast
  with assms show ?thesis
    by (simp add: Tag_Get_def no_faults_def delivered_def Scan_def)
qed

lemma Delete_no_faults:
  "Tag_Delete no_faults db tag = (None, tagDelete (universe tag) (entity tag) (key tag) db)"
  by (simp add: Tag_Delete_def no_faults_def)

lemma Set_unique: "unique_triples db \<Longrightarrow> unique_triples (snd (Tag_Set marshal f db tag v))"
  by (simp add: Tag_Set_def unique_tagUpsert split: sum.splits option.splits)

lemma Delete_unique: "unique_triples db \<Longrightarrow> unique_triples (snd (Tag_Delete f db tag))"
  by (simp add: Tag_Delete_def unique_tagDelete split: option.splits)

text \<open>
  Claim C1 (round trip). For every value \<open>v\<close> that serializes, every triple
  \<open>(u, e, k)\<close> and every table, \<^verbatim>\<open>Set(v)\<close> on the tag of the triple returns no error,
  and \<^verbatim>\<open>Get\<close> afterwards into a slot into which the text of \<open>v\<close> decodes as \<open>v\<close> returns
  found = true, no error, and leaves \<open>v\<close> in the slot.
\<close>

theorem set_then_get:
  assumes "marshal v = Inr raw" and "unmarshal raw out = (None, v)"
  shows "fst (Tag_Set marshal no_faults db (Tags_Tag u e k) v) = None \<and>
         Tag_Get unmarshal no_faults (snd (Tag_Set marshal no_faults db (Tags_Tag u e k) v))
           (Tags_Tag u e k) out = (True, None, v)"
  using assms by (simp add: Set_no_faults Get_after_upsert)

theorem set_then_get_witness:
  "json_Marshal (GBool True) = Inr ''true'' \<and>
   json_Unmarshal ''true'' GNil = (None, GBool True) \<and>
   fst (Tag_Set json_Marshal no_faults [] (Tags_Tag ''1234'' ''5678'' ''truthy'') (GBool True))
     = None \<and>
   Tag_Get json_Unmarshal no_faults
     (snd (Tag_Set json_Marshal no_faults [] (Tags_Tag ''1234'' ''5678'' ''truthy'') (GBool True)))
     (Tags_Tag ''1234'' ''5678'' ''truthy'') GNil = (True, None, GBool True)"
proof -
  have m: "json_Marshal (GBool True) = Inr ''true''"
    by (simp add: json_Marshal_def)
  have d: "json_Unmarshal ''true'' GNil = (None, GBool True)"
    by (simp add: json_Unmarshal_def)
  from set_then_get [where marshal = json_Marshal and unmarshal = json_Unmarshal
      and v = "GBool True" and raw = "''true''" and out = GNil and db = "[]"
      and u = "''1234''" and e = "''5678''" and k = "''truthy''", OF m d] m d
  show ?thesis by simp
qed

text \<open>
  Claim C3 (upsert overwrite). For every tag, every table (whether it holds a row for the
  triple or not) and every two values \<open>a\<close> and \<open>b\<close> that serialize, \<^verbatim>\<open>Set(a)\<close>, then
  \<^verbatim>\<open>Set(b)\<close>, then \<^verbatim>\<open>Get\<close> into a slot into which the text of \<open>b\<close> decodes as \<open>b\<close>
  returns found = true and \<open>b\<close>; and after \<^verbatim>\<open>Set(a)\<close> alone the triple is present with
  the text of \<open>a\<close>, whatever the table was before.
\<close>

theorem set_set_get:
  assumes "marshal a = Inr ra" and "marshal b = Inr rb" and "unmarshal rb out = (None, b)"
  shows "Tag_Get unmarshal no_faults
           (snd (Tag_Set marshal no_faults (snd (Tag_Set marshal no_faults db tag a)) tag b))
           tag out = (True, None, b) \<and>
         set (tagQuery (universe tag) (entity tag) (key tag)
                 (snd (Tag_Set marshal no_faults db tag a))) = {Some ra}"
  using assms by (simp add: Set_no_faults Get_after_upsert set_tagQuery_tagUpsert)

theorem set_set_get_witness:
  "json_Marshal GNil = Inr ''null'' \<and> json_Marshal (GBool True) = Inr ''true'' \<and>
   json_Unmarshal ''true'' GNil = (None, GBool True) \<and>
   Tag_Get json_Unmarshal no_faults
     (snd (Tag_Set json_Marshal no_faults
        (snd (Tag_Set json_Marshal no_faults
           [\<lparr>col_universe = ''1234'', col_entity = ''5678'', col_key = ''thing'',
              col_value = Some ''false''\<rparr>]
           (Tags_Tag ''1234'' ''5678'' ''thing'') GNil))
        (Tags_Tag ''1234'' ''5678'' ''thing'') (GBool True)))
     (Tags_Tag ''1234'' ''5678'' ''thing'') GNil = (True, None, GBool True)"
proof -
  have ma: "json_Marshal GNil = Inr ''null''"
    by (simp add: json_Marshal_def)
  have mb: "json_Marshal (GBool True) = Inr ''true''"
    by (simp add: json_Marshal_def)
  have d: "json_Unmarshal ''true'' GNil = (None, GBool True)"
    by (simp add: json_Unmarshal_def)
  from set_set_get [where marshal = json_Marshal and unmarshal = json_Unmarshal
      and a = GNil and ra = "''null''" and b = "GBool True" and rb = "''true''" and out = GNil
      and tag = "Tags_Tag ''1234'' ''5678'' ''thing''"
      and db = "[\<lparr>col_universe = ''1234'', col_entity = ''5678'', col_key = ''thing'',
                  col_value = Some ''false''\<rparr>]", OF ma mb d] ma mb d
  show ?thesis by simp
qed

text \<open>
  Claim C4 (idempotent delete). For every tag whose triple has no row, \<^verbatim>\<open>Delete\<close> returns
  no error and the table it leaves is the table it found; the table is left as found
  whatever the database layer answers; and any number of \<^verbatim>\<open>Delete\<close> calls in a row on
  that tag all return no error and leave the table as it was.
\<close>

theorem delete_absent:
  assumes "tagQuery (universe tag) (entity tag) (key tag) db = []"
  shows "Tag_Delete no_faults db tag = (None, db) \<and>
         snd (Tag_Delete f db tag) = db \<and>
         Delete_repeat n db tag = (replicate n None, db)"
proof -
  have one: "Tag_Delete no_faults db tag = (None, db)"
    using assms by (simp add: Delete_no_faults tagDelete_absent)
  have frame: "snd (Tag_Delete f db tag) = db"
    using assms by (simp add: Tag_Delete_def tagDelete_absent split: option.splits)
  have many: "Delete_repeat n db tag = (replicate n None, db)"
    using one by (induction n) simp_all
  from one frame many show ?thesis by simp
qed

theorem delete_absent_witness:
  "tagQuery ''1234'' ''5678'' ''bool'' [] = [] \<and>
   Tag_Delete no_faults [] (Tags_Tag ''1234'' ''5678'' ''bool'') = (None, []) \<and>
   Delete_repeat 3 [] (Tags_Tag ''1234'' ''5678'' ''bool'') = ([None, None, None], [])"
proof -
  have a: "tagQuery (universe (Tags_Tag ''1234'' ''5678'' ''bool''))
      (entity (Tags_Tag ''1234'' ''5678'' ''bool'')) (key (Tags_Tag ''1234'' ''5678'' ''bool'')) [] = []"
    by (simp add: tagQuery_def)
  have r: "replicate 3 (None :: error option) = [None, None, None]"
    by (simp add: numeral_3_eq_3)
  from delete_absent [OF a, of no_faults 3] r show ?thesis
    by (simp add: tagQuery_def)
qed

text \<open>
  After one \<^verbatim>\<open>Delete\<close> the triple is absent, so from any table every further call is a
  successful no-op.
\<close>

lemma Delete_repeat_any:
  "Delete_repeat (Suc n) db tag =
     (replicate (Suc n) None, tagDelete (universe tag) (entity tag) (key tag) db)"
proof -
  have "Delete_repeat n (tagDelete (universe tag) (entity tag) (key tag) db) tag
      = (replicate n None, tagDelete (universe tag) (entity tag) (key tag) db)"
    by (induction n) (simp_all add: Delete_no_faults tagDelete_absent tagQuery_tagDelete)
  then show ?thesis by (simp add: Delete_no_faults)
qed

text \<open>
  Claim C5 (absence). For every tag whose triple has no row, \<^verbatim>\<open>Get\<close> returns
  found = false and leaves the output slot as it was; the error it returns is the one
  of \<^verbatim>\<open>Prepare\<close> or \<^verbatim>\<open>Query\<close> if the database layer raised one, and none otherwise.
\<close>

theorem get_absent:
  assumes "tagQuery (universe tag) (entity tag) (key tag) db = []"
  shows "Tag_Get unmarshal f db tag out =
           (False, (case prepare_err f of Some err \<Rightarrow> Some err | None \<Rightarrow> query_err f), out) \<and>
         Tag_Get unmarshal no_faults db tag out = (False, None, out)"
  using assms
  by (simp add: Tag_Get_def no_faults_def delivered_def split: option.splits)

theorem get_absent_witness:
  "tagQuery ''1234'' ''5678'' ''empty'' [] = [] \<and>
   Tag_Get json_Unmarshal no_faults [] (Tags_Tag ''1234'' ''5678'' ''empty'') (GBool True)
     = (False, None, GBool True)"
proof -
  have a: "tagQuery (universe (Tags_Tag ''1234'' ''5678'' ''empty''))
      (entity (Tags_Tag ''1234'' ''5678'' ''empty''))
      (key (Tags_Tag ''1234'' ''5678'' ''empty'')) [] = []"
    by (simp add: tagQuery_def)
  from get_absent [OF a, of json_Unmarshal no_faults "GBool True"] show ?thesis
    by (simp add: tagQuery_def no_faults_def)
qed

text \<open>
  Claim C7 (encoding error). For every value that does not serialize, \<^verbatim>\<open>Set\<close> returns the
  error of the encoder and the table is the one it found, whatever the database layer
  would have answered: the failure comes before the transaction begins.
\<close>

theorem set_unserializable:
  assumes "marshal v = Inl err"
  shows "Tag_Set marshal f db tag v = (Some err, db)"
  using assms by (simp add: Tag_Set_def)

theorem set_unserializable_witness:
  "json_Marshal GChan = Inl (JsonError ''json: unsupported type'') \<and>
   Tag_Set json_Marshal no_faults
     [\<lparr>col_universe = ''1234'', col_entity = ''5678'', col_key = ''thing'',
        col_value = Some ''true''\<rparr>]
     (Tags_Tag ''1234'' ''5678'' ''thing'') GChan
   = (Some (JsonError ''json: unsupported type''),
      [\<lparr>col_universe = ''1234'', col_entity = ''5678'', col_key = ''thing'',
         col_value = Some ''true''\<rparr>])"
proof -
  have m: "json_Marshal GChan = Inl (JsonError ''json: unsupported type'')"
    by (simp add: json_Marshal_def)
  from set_unserializable [where marshal = json_Marshal, OF m] m show ?thesis
    by simp
qed

text \<open>
  Claim C10 (found excludes an error). Whatever \<^verbatim>\<open>Get\<close> returns, an error comes with
  found = false; and found = true comes with no error, a row of the triple holding a
  text, and in the slot what that text decodes to.
\<close>

theorem get_found:
  assumes "Tag_Get unmarshal f db tag out = (found, err, out')"
  shows "(err \<noteq> None \<longrightarrow> \<not> found) \<and>
         (found \<longrightarrow> err = None \<and>
           (\<exists>raw. Some raw \<in> set (tagQuery (universe tag) (entity tag) (key tag) db) \<and>
                  unmarshal raw out = (None, out')))"
  using assms
  by (auto simp: Tag_Get_def Scan_def
      split: option.splits list.splits sum.splits prod.splits dest: delivered_Cons_in)

theorem get_found_witness:
  "Tag_Get json_Unmarshal no_faults
     [\<lparr>col_universe = ''1234'', col_entity = ''5678'', col_key = ''truthy'',
        col_value = Some ''true''\<rparr>]
     (Tags_Tag ''1234'' ''5678'' ''truthy'') (GBool False) = (True, None, GBool True) \<and>
   (\<exists>raw. Some raw \<in> set (tagQuery ''1234'' ''5678'' ''truthy''
        [\<lparr>col_universe = ''1234'', col_entity = ''5678'', col_key = ''truthy'',
           col_value = Some ''true''\<rparr>]) \<and>
      json_Unmarshal raw (GBool False) = (None, GBool True))"
proof -
  have g: "Tag_Get json_Unmarshal no_faults
     [\<lparr>col_universe = ''1234'', col_entity = ''5678'', col_key = ''truthy'',
        col_value = Some ''true''\<rparr>]
     (Tags_Tag ''1234'' ''5678'' ''truthy'') (GBool False) = (True, None, GBool True)"
    by (simp add: Tag_Get_def no_faults_def delivered_def tagQuery_def matches_def
        handle_fields Scan_def json_Unmarshal_def)
  from get_found [OF g] g show ?thesis
    by (simp add: handle_fields)
qed

text \<open>
  Claim C8 (null is a value). When \<^verbatim>\<open>nil\<close> serializes to the literal \<^verbatim>\<open>null\<close> and
  \<^verbatim>\<open>null\<close> decodes into the slot as its no-value \<open>z\<close>: after \<^verbatim>\<open>Set(nil)\<close> the triple
  has a row and every row of the triple holds the text \<^verbatim>\<open>null\<close>, and \<^verbatim>\<open>Get\<close> returns
  found = true with \<open>z\<close> in the slot; on a table with no row for the triple \<^verbatim>\<open>Get\<close>
  returns found = false.
\<close>

theorem null_is_stored:
  assumes "marshal nil = Inr ''null''" and "unmarshal ''null'' out = (None, z)"
    and "tagQuery u e k db0 = []"
  shows "set (tagQuery u e k (snd (Tag_Set marshal no_faults db (Tags_Tag u e k) nil)))
           = {Some ''null''} \<and>
         Tag_Get unmarshal no_faults (snd (Tag_Set marshal no_faults db (Tags_Tag u e k) nil))
           (Tags_Tag u e k) out = (True, None, z) \<and>
         fst (Tag_Get unmarshal f db0 (Tags_Tag u e k) out) = False"
proof -
  have s: "snd (Tag_Set marshal no_faults db (Tags_Tag u e k) nil) = tagUpsert u e k ''null'' db"
    using assms(1) by (simp add: Set_no_faults handle_fields)
  have g: "Tag_Get unmarshal no_faults (tagUpsert u e k ''null'' db) (Tags_Tag u e k) out
        = (True, None, z)"
    using assms(2)
      Get_after_upsert [where unmarshal = unmarshal and raw = "''null''" and out = out
        and v = z and tag = "Tags_Tag u e k" and db = db]
    by (simp add: handle_fields)
  have a: "fst (Tag_Get unmarshal f db0 (Tags_Tag u e k) out) = False"
    using assms(3) by (simp add: Tag_Get_def delivered_def handle_fields split: option.splits)
  from s g a show ?thesis by (simp add: set_tagQuery_tagUpsert)
qed

theorem null_is_stored_witness:
  "json_Marshal GNil = Inr ''null'' \<and>
   json_Unmarshal ''null'' (GBool True) = (None, GNil) \<and>
   tagQuery ''1234'' ''5678'' ''nully'' [] = [] \<and>
   set (tagQuery ''1234'' ''5678'' ''nully''
     (snd (Tag_Set json_Marshal no_faults [] (Tags_Tag ''1234'' ''5678'' ''nully'') GNil)))
     = {Some ''null''} \<and>
   Tag_Get json_Unmarshal no_faults
     (snd (Tag_Set json_Marshal no_faults [] (Tags_Tag ''1234'' ''5678'' ''nully'') GNil))
     (Tags_Tag ''1234'' ''5678'' ''nully'') (GBool True) = (True, None, GNil) \<and>
   fst (Tag_Get json_Unmarshal no_faults [] (Tags_Tag ''1234'' ''5678'' ''nully'') (GBool True))
     = False"
proof -
  have m: "json_Marshal GNil = Inr ''null''"
    by (simp add: json_Marshal_def)
  have d: "json_Unmarshal ''null'' (GBool True) = (None, GNil)"
    by (simp add: json_Unmarshal_def)
  have a: "tagQuery ''1234'' ''5678'' ''nully'' [] = []"
    by (simp add: tagQuery_def)
  from null_is_stored [where marshal = json_Marshal and unmarshal = json_Unmarshal
      and nil = GNil and out = "GBool True" and z = GNil and ?db0.0 = "[]" and db = "[]"
      and f = no_faults, OF m d a] m d a
  show ?thesis by simp
qed

section \<open>What Set persists\<close>

lemma nonempty_tagUpsert:
  "nonempty_triples db \<Longrightarrow> u \<noteq> [] \<Longrightarrow> e \<noteq> [] \<Longrightarrow> k \<noteq> [] \<Longrightarrow>
   nonempty_triples (tagUpsert u e k raw db)"
  by (auto simp: nonempty_triples_def tagUpsert_def list_all_iff)

lemma Set_nonempty:
  "nonempty_triples db \<Longrightarrow> nonempty_handle tag \<Longrightarrow>
   nonempty_triples (snd (Tag_Set marshal f db tag v))"
  by (simp add: Tag_Set_def nonempty_handle_def nonempty_tagUpsert
      split: sum.splits option.splits)

text \<open>
  Claim C9, as amended. \<^verbatim>\<open>Set\<close> persists the universe, entity and key of its handle as
  they are: from a table in which no row has an empty universe, entity or key, a
  sequence of \<^verbatim>\<open>Set\<close> calls on handles whose universe, entity and key are all non-empty
  leaves a table in which no row has an empty universe, entity or key.
\<close>

theorem Set_all_nonempty:
  assumes "nonempty_triples db" and "list_all (\<lambda>(f, tag, v). nonempty_handle tag) calls"
  shows "nonempty_triples (Set_all marshal db calls)"
  using assms
proof (induction calls arbitrary: db)
  case Nil
  then show ?case by simp
next
  case (Cons c calls)
  obtain f tag v where c: "c = (f, tag, v)" by (cases c)
  with Cons.prems have h: "nonempty_handle tag"
    and rest: "list_all (\<lambda>(f, tag, v). nonempty_handle tag) calls"
    by simp_all
  from Cons.prems(1) h have "nonempty_triples (snd (Tag_Set marshal f db tag v))"
    by (rule Set_nonempty)
  from Cons.IH [OF this rest] c show ?case by simp
qed

theorem Set_all_nonempty_witness:
  "nonempty_triples [] \<and>
   list_all (\<lambda>(f, tag, v). nonempty_handle tag)
     [(no_faults, Tags_Tag ''1234'' ''5678'' ''nully'', GNil)] \<and>
   nonempty_triples
     (Set_all json_Marshal [] [(no_faults, Tags_Tag ''1234'' ''5678'' ''nully'', GNil)])"
proof -
  have d: "nonempty_triples []"
    by (simp add: nonempty_triples_def)
  have h: "list_all (\<lambda>(f, tag, v). nonempty_handle tag)
     [(no_faults, Tags_Tag ''1234'' ''5678'' ''nully'', GNil)]"
    by (simp add: nonempty_handle_def handle_fields)
  from Set_all_nonempty [OF d h, of json_Marshal] d h show ?thesis
    by simp
qed

text \<open>
  Claim C9 as stated fails: no operation checks the strings of a handle, and \<^verbatim>\<open>Set\<close> on
  the tag of the triple of three empty strings leaves a row with an empty universe,
  entity and key in the table.
\<close>

theorem empty_triple_persisted:
  "Set_all json_Marshal [] [(no_faults, Tags_Tag [] [] [], GNil)]
     = [\<lparr>col_universe = [], col_entity = [], col_key = [], col_value = Some ''null''\<rparr>] \<and>
   \<not> nonempty_triples (Set_all json_Marshal [] [(no_faults, Tags_Tag [] [] [], GNil)])"
  by (simp add: Tag_Set_def json_Marshal_def no_faults_def handle_fields tagUpsert_def
      nonempty_triples_def)

section \<open>Listing\<close>

lemma Tags_loop_append: "Tags_loop result rs = result @ rs"
  by (induction rs arbitrary: result) simp_all

lemma Tags_no_faults:
  "TagBag_Tags plan no_faults db bag = Inr (tagKeys plan (universe bag) (entity bag) db)"
  by (simp add: TagBag_Tags_def no_faults_def delivered_def Tags_loop_append)

text \<open>
  Under any access path that yields each selected row once, the names listed are the
  names stored for the pair; under the forward walk of the unique index they come
  ascending, under the backward walk descending.
\<close>

lemma Tags_names:
  assumes "set (plan (filter (in_bag (universe bag) (entity bag)) db))
           = set (filter (in_bag (universe bag) (entity bag)) db)"
  shows "\<exists>ks. TagBag_Tags plan no_faults db bag = Inr ks \<and>
          set ks = {col_key r | r. r \<in> set db \<and> in_bag (universe bag) (entity bag) r}"
  using assms by (auto simp: Tags_no_faults tagKeys_def)

lemma Tags_index_scan_sorted:
  "\<exists>ks. TagBag_Tags index_scan no_faults db bag = Inr ks \<and> sorted ks \<and>
      set ks = {col_key r | r. r \<in> set db \<and> in_bag (universe bag) (entity bag) r}"
  by (auto simp: Tags_no_faults tagKeys_def index_scan_def)

lemma Tags_index_scan_listing:
  "TagBag_Tags index_scan no_faults
     (Set_all json_Marshal []
        [(no_faults, Tags_Tag ''u'' ''e'' ''b'', GBool True),
         (no_faults, Tags_Tag ''u'' ''e'' ''a'', GBool True),
         (no_faults, Tags_Tag ''u'' ''e'' ''c'', GBool True)])
     (Tags_TagBag ''u'' ''e'') = Inr [''a'', ''b'', ''c'']"
  by code_simp

lemma Tags_index_scan_reverse_names:
  "\<exists>ks. TagBag_Tags index_scan_reverse no_faults db bag = Inr ks \<and> sorted (rev ks) \<and>
      set ks = {col_key r | r. r \<in> set db \<and> in_bag (universe bag) (entity bag) r}"
  by (auto simp: Tags_no_faults tagKeys_def index_scan_reverse_def rev_map [symmetric])

text \<open>
  Claim C2 (listing order), evaluated on the documented schema with the engine under
  \<^verbatim>\<open>PRAGMA reverse_unordered_selects\<close>: after \<^verbatim>\<open>Set\<close> on the keys b, a and c of one
  entity, \<^verbatim>\<open>Tags()\<close> returns c, b, a, descending, and not a, b, c. The statement has no
  \<^verbatim>\<open>ORDER BY\<close> and the loop does not sort, so the order of the list is the order in
  which the engine walks its index.
\<close>

theorem Tags_reverse_scan_unsorted:
  "TagBag_Tags index_scan_reverse no_faults
     (Set_all json_Marshal []
        [(no_faults, Tags_Tag ''u'' ''e'' ''b'', GBool True),
         (no_faults, Tags_Tag ''u'' ''e'' ''a'', GBool True),
         (no_faults, Tags_Tag ''u'' ''e'' ''c'', GBool True)])
     (Tags_TagBag ''u'' ''e'') = Inr [''c'', ''b'', ''a'']"
  by code_simp

section \<open>Errors that are not returned\<close>

text \<open>
  Claim C6 (no error is swallowed), evaluated where the database layer fails. When
  \<^verbatim>\<open>Commit\<close> fails, \<^verbatim>\<open>Set\<close> and \<^verbatim>\<open>Delete\<close> return nil although nothing was written or
  removed. When the iteration of the result set breaks before the first row, \<^verbatim>\<open>Tags()\<close>
  returns an empty list and nil, and \<^verbatim>\<open>Get\<close> returns found = false and nil, although a
  row is stored.
\<close>

theorem commit_error_dropped:
  "Tag_Set json_Marshal (no_faults\<lparr>commit_err := Some (StoreError ''database is locked'')\<rparr>) []
     (Tags_Tag ''1234'' ''5678'' ''bool'') (GBool True) = (None, []) \<and>
   Tag_Delete (no_faults\<lparr>commit_err := Some (StoreError ''database is locked'')\<rparr>)
     [\<lparr>col_universe = ''1234'', col_entity = ''5678'', col_key = ''bool'',
        col_value = Some ''true''\<rparr>]
     (Tags_Tag ''1234'' ''5678'' ''bool'')
     = (None, [\<lparr>col_universe = ''1234'', col_entity = ''5678'', col_key = ''bool'',
                 col_value = Some ''true''\<rparr>]) \<and>
   TagBag_Tags plan (no_faults\<lparr>rows_break := Some 0\<rparr>)
     [\<lparr>col_universe = ''1234'', col_entity = ''5678'', col_key = ''bool'',
        col_value = Some ''true''\<rparr>]
     (Tags_TagBag ''1234'' ''5678'') = Inr [] \<and>
   Tag_Get json_Unmarshal (no_faults\<lparr>rows_break := Some 0\<rparr>)
     [\<lparr>col_universe = ''1234'', col_entity = ''5678'', col_key = ''bool'',
        col_value = Some ''true''\<rparr>]
     (Tags_Tag ''1234'' ''5678'' ''bool'') GNil = (False, None, GNil)"
  by (simp add: Tag_Set_def Tag_Delete_def TagBag_Tags_def Tag_Get_def json_Marshal_def
      no_faults_def delivered_def tagKeys_def tagQuery_def)

text \<open>
  The errors that are read are returned: the error of \<^verbatim>\<open>Begin\<close>, \<^verbatim>\<open>Prepare\<close>, \<^verbatim>\<open>Query\<close>
  and \<^verbatim>\<open>Exec\<close> reaches the caller of each operation.
\<close>

lemma read_errors_returned:
  "prepare_err f = Some err \<Longrightarrow> Tag_Get unmarshal f db tag out = (False, Some err, out)"
  "prepare_err f = Some err \<Longrightarrow> TagBag_Tags plan f db bag = Inl err"
  "begin_err f = Some err \<Longrightarrow> Tag_Delete f db tag = (Some err, db)"
  "marshal v = Inr raw \<Longrightarrow> begin_err f = Some err \<Longrightarrow> Tag_Set marshal f db tag v = (Some err, db)"
  "begin_err f = None \<Longrightarrow> prepare_err f = None \<Longrightarrow> exec_err f = Some err \<Longrightarrow>
     Tag_Delete f db tag = (Some err, db)"
  "marshal v = Inr raw \<Longrightarrow> begin_err f = None \<Longrightarrow> prepare_err f = None \<Longrightarrow>
     exec_err f = Some err \<Longrightarrow> Tag_Set marshal f db tag v = (Some err, db)"
  by (simp_all add: Tag_Get_def TagBag_Tags_def Tag_Delete_def Tag_Set_def)


end
